theory Spec2Isabelle
  imports Main
begin

section \<open>Python values, exceptions and the imaging library\<close>

text \<open>
  The banner subsystem is three Python modules: \<^verbatim>\<open>controlnet_generator.py\<close> (the
  guidance sketch), \<^verbatim>\<open>banner_compositor.py\<close> (text rendering, export, import) and
  \<^verbatim>\<open>bannerlord.py\<close> (parsing of the advisor's answer). The code raises nothing on
  its own; every failure is an exception of a library it calls (Pillow, \<^verbatim>\<open>json\<close>, the
  file system) or of a subscript on a missing key. Exceptions are values here.
\<close>

datatype py_error =
    ValueError
  | KeyError string
  | TypeError
  | AttributeError
  | FileNotFoundError string
  | OSError string
  | UnidentifiedImageError string

type_synonym box = "int \<times> int \<times> int \<times> int"

datatype font = TrueType string int | DefaultFont

text \<open>
  A drawing call as the code issues it. The role of a shape is the purpose the source
  gives it (the border, the dividing lines of a layout, the box marking the text area);
  the integer is the \<^verbatim>\<open>width=\<close> argument of the call.
\<close>

datatype role = GuidanceBorder | GuidanceDivider | TextArea

datatype draw_call =
    Rectangle role box int
  | Line role box int
  | Text "int \<times> int" string font string int string

text \<open>
  An image is its size, the colour or file it started from, and the drawing calls made
  on it since, oldest first: Pillow's drawing is a function of these.
\<close>

record image =
  img_width :: int
  img_height :: int
  img_base :: string
  img_drawn :: "draw_call list"

text \<open>
  What the code needs from Pillow and the operating system. Each drawing entry says
  whether the call raises; \<open>textbbox\<close> is \<^verbatim>\<open>ImageDraw.textbbox((0, 0), text, font)\<close>;
  \<open>path_exists\<close> is \<^verbatim>\<open>os.path.exists\<close>; \<open>truetype_loads\<close> says whether
  \<^verbatim>\<open>ImageFont.truetype(path, size)\<close> returns.
\<close>

record pil =
  new_raises :: "int \<Rightarrow> int \<Rightarrow> py_error option"
  rectangle_raises :: "box \<Rightarrow> int \<Rightarrow> py_error option"
  line_raises :: "box \<Rightarrow> int \<Rightarrow> py_error option"
  text_raises :: "draw_call \<Rightarrow> py_error option"
  textbbox :: "font \<Rightarrow> string \<Rightarrow> py_error + box"
  path_exists :: "string \<Rightarrow> bool"
  truetype_loads :: "string \<Rightarrow> int \<Rightarrow> bool"

definition call_raises :: "pil \<Rightarrow> draw_call \<Rightarrow> py_error option" where
  "call_raises P c =
     (case c of
        Rectangle r b w \<Rightarrow> rectangle_raises P b w
      | Line r b w \<Rightarrow> line_raises P b w
      | Text xy s f fill sw sf \<Rightarrow> text_raises P c)"

text \<open>
  Two libraries to run the code on. \<open>strict_pil\<close> refuses a negative canvas size and a
  rectangle whose second corner lies before its first, with \<^verbatim>\<open>ValueError\<close>, finds no
  font file, and measures text as a bitmap face does (6 by 11 pixels a character, the
  box starting at the origin). \<open>lenient_pil\<close> accepts every call.
\<close>

definition strict_pil :: pil where
  "strict_pil =
     \<lparr> new_raises = (\<lambda>w h. if w < 0 \<or> h < 0 then Some ValueError else None),
       rectangle_raises =
         (\<lambda>(x0, y0, x1, y1) w. if x1 < x0 \<or> y1 < y0 then Some ValueError else None),
       line_raises = (\<lambda>b w. None),
       text_raises = (\<lambda>c. None),
       textbbox = (\<lambda>f s. Inr (0, 0, 6 * int (length s), 11)),
       path_exists = (\<lambda>p. False),
       truetype_loads = (\<lambda>p n. False) \<rparr>"

definition lenient_pil :: pil where
  "lenient_pil = strict_pil \<lparr> new_raises := (\<lambda>w h. None), rectangle_raises := (\<lambda>b w. None) \<rparr>"

section \<open>The guidance sketch: create_control_image\<close>

text \<open>
  \<^verbatim>\<open>ControlNetBannerGenerator.create_control_image\<close>. The shapes of the layout, in
  the order drawn; a layout type other than the three draws none. Python's \<^verbatim>\<open>//\<close> is
  \<open>div\<close> on \<open>int\<close> (both round down), and \<^verbatim>\<open>2*width//3\<close> is \<open>(2 * width) div 3\<close>.
\<close>

definition layout_shapes :: "int \<Rightarrow> int \<Rightarrow> string \<Rightarrow> draw_call list" where
  "layout_shapes width height layout_type =
     (if layout_type = ''minimal'' then
        [Rectangle GuidanceBorder (0, 0, width - 1, height - 1) 3]
      else if layout_type = ''geometric'' then
        [Rectangle GuidanceBorder (0, 0, width - 1, height - 1) 3,
         Line GuidanceDivider (width div 3, 0, width div 3, height) 2,
         Line GuidanceDivider ((2 * width) div 3, 0, (2 * width) div 3, height) 2]
      else if layout_type = ''split'' then
        [Rectangle GuidanceBorder (0, 0, width - 1, height - 1) 3,
         Line GuidanceDivider (width div 2, 0, width div 2, height) 4]
      else [])"

definition padding :: int where
  "padding = 50"

definition text_box :: "int \<Rightarrow> int \<Rightarrow> string \<Rightarrow> box" where
  "text_box width height text_position =
     (if text_position = ''center'' then
        (width div 4, height div 3, (3 * width) div 4, (2 * height) div 3)
      else if text_position = ''left'' then
        (padding, height div 4, width div 2 - padding, (3 * height) div 4)
      else if text_position = ''right'' then
        (width div 2 + padding, height div 4, width - padding, (3 * height) div 4)
      else if text_position = ''top'' then
        (padding, padding, width - padding, height div 3)
      else if text_position = ''bottom'' then
        (padding, (2 * height) div 3, width - padding, height - padding)
      else (width div 4, height div 3, (3 * width) div 4, (2 * height) div 3))"

text \<open>Drawing stops at the first call that raises.\<close>

fun draw_all :: "pil \<Rightarrow> draw_call list \<Rightarrow> image \<Rightarrow> py_error + image" where
  "draw_all P [] img = Inr img"
| "draw_all P (c # cs) img =
     (case call_raises P c of
        Some e \<Rightarrow> Inl e
      | None \<Rightarrow> draw_all P cs (img \<lparr> img_drawn := img_drawn img @ [c] \<rparr>))"

definition create_control_image ::
  "pil \<Rightarrow> int \<Rightarrow> int \<Rightarrow> string \<Rightarrow> string \<Rightarrow> py_error + image" where
  "create_control_image P width height text_position layout_type =
     (case new_raises P width height of
        Some e \<Rightarrow> Inl e
      | None \<Rightarrow>
          draw_all P
            (layout_shapes width height layout_type @
             [Rectangle TextArea (text_box width height text_position) 2])
            \<lparr> img_width = width, img_height = height, img_base = ''white'', img_drawn = [] \<rparr>)"

text \<open>Reading a sketch back as layout regions.\<close>

fun shape_box :: "draw_call \<Rightarrow> box" where
  "shape_box (Rectangle r b w) = b"
| "shape_box (Line r b w) = b"
| "shape_box (Text xy s f fill sw sf) = (fst xy, snd xy, fst xy, snd xy)"

fun shape_role :: "draw_call \<Rightarrow> role option" where
  "shape_role (Rectangle r b w) = Some r"
| "shape_role (Line r b w) = Some r"
| "shape_role (Text xy s f fill sw sf) = None"

definition is_text_area :: "draw_call \<Rightarrow> bool" where
  "is_text_area c = (shape_role c = Some TextArea)"

definition inside :: "int \<Rightarrow> int \<Rightarrow> box \<Rightarrow> bool" where
  "inside width height b =
     (case b of (x0, y0, x1, y1) \<Rightarrow>
        0 \<le> x0 \<and> x0 \<le> width \<and> 0 \<le> x1 \<and> x1 \<le> width \<and>
        0 \<le> y0 \<and> y0 \<le> height \<and> 0 \<le> y1 \<and> y1 \<le> height)"

section \<open>Text rendering: add_text_to_banner\<close>

text \<open>
  \<^verbatim>\<open>str.title()\<close> on ASCII text: the first letter of every run of letters in upper
  case, the others in lower case; any other character ends the run.
\<close>

definition is_lower :: "char \<Rightarrow> bool" where
  "is_lower c = (97 \<le> (of_char c :: nat) \<and> (of_char c :: nat) \<le> 122)"

definition is_upper :: "char \<Rightarrow> bool" where
  "is_upper c = (65 \<le> (of_char c :: nat) \<and> (of_char c :: nat) \<le> 90)"

definition to_upper :: "char \<Rightarrow> char" where
  "to_upper c = (if is_lower c then char_of ((of_char c :: nat) - 32) else c)"

definition to_lower :: "char \<Rightarrow> char" where
  "to_lower c = (if is_upper c then char_of ((of_char c :: nat) + 32) else c)"

fun title_from :: "bool \<Rightarrow> string \<Rightarrow> string" where
  "title_from previous_is_cased [] = []"
| "title_from previous_is_cased (c # cs) =
     (if is_lower c then
        (if previous_is_cased then c else to_upper c) # title_from True cs
      else if is_upper c then
        (if previous_is_cased then to_lower c else c) # title_from True cs
      else c # title_from False cs)"

definition title :: "string \<Rightarrow> string" where
  "title s = title_from False s"

text \<open>
  \<^verbatim>\<open>BannerCompositor._get_font\<close>: the first of four paths that exists and loads;
  a path that exists and fails to load is skipped (the bare \<^verbatim>\<open>except: continue\<close>);
  after the last, \<^verbatim>\<open>ImageFont.load_default()\<close>.
\<close>

definition font_paths :: "string \<Rightarrow> string list" where
  "font_paths font_family =
     [''/usr/share/fonts/truetype/dejavu/DejaVu'' @ title font_family @ ''.ttf'',
      ''/usr/share/fonts/truetype/liberation/Liberation'' @ title font_family @ ''.ttf'',
      ''/usr/share/fonts/truetype/dejavu/DejaVuSans-Bold.ttf'',
      ''/usr/share/fonts/truetype/dejavu/DejaVuSans.ttf'']"

fun first_font :: "pil \<Rightarrow> string list \<Rightarrow> int \<Rightarrow> font" where
  "first_font P [] font_size = DefaultFont"
| "first_font P (font_path # rest) font_size =
     (if path_exists P font_path \<and> truetype_loads P font_path font_size
      then TrueType font_path font_size
      else first_font P rest font_size)"

definition get_font :: "pil \<Rightarrow> int \<Rightarrow> string \<Rightarrow> font" where
  "get_font P font_size font_family = first_font P (font_paths font_family) font_size"

text \<open>
  Images are objects: \<^verbatim>\<open>background.copy()\<close> makes a new one and \<^verbatim>\<open>draw.text\<close>
  changes the one its \<^verbatim>\<open>ImageDraw\<close> was made for. The store is the list of the
  images alive, a reference is an index into it.
\<close>

type_synonym heap = "image list"

definition copy_image :: "heap \<Rightarrow> nat \<Rightarrow> heap \<times> nat" where
  "copy_image h r = (h @ [h ! r], length h)"

definition draw_text :: "pil \<Rightarrow> heap \<Rightarrow> nat \<Rightarrow> draw_call \<Rightarrow> heap \<times> py_error option" where
  "draw_text P h r c =
     (case text_raises P c of
        Some e \<Rightarrow> (h, Some e)
      | None \<Rightarrow> (h [r := (h ! r) \<lparr> img_drawn := img_drawn (h ! r) @ [c] \<rparr>], None))"

text \<open>Lines 94 to 101: the position computed when none is given.\<close>

definition auto_position :: "image \<Rightarrow> box \<Rightarrow> int \<times> int" where
  "auto_position img bbox =
     (case bbox of (b0, b1, b2, b3) \<Rightarrow>
        (let text_width = b2 - b0;
             text_height = b3 - b1;
             x = (img_width img - text_width) div 2;
             y = (img_height img - text_height) div 2
         in (x, y)))"

definition resolve_position ::
  "pil \<Rightarrow> image \<Rightarrow> font \<Rightarrow> string \<Rightarrow> (int \<times> int) option \<Rightarrow> py_error + (int \<times> int)" where
  "resolve_position P img font text position =
     (case position of
        Some p \<Rightarrow> Inr p
      | None \<Rightarrow>
          (case textbbox P font text of
             Inl e \<Rightarrow> Inl e
           | Inr bbox \<Rightarrow> Inr (auto_position img bbox)))"

definition shadow_offset :: int where
  "shadow_offset = 3"

text \<open>
  \<^verbatim>\<open>BannerCompositor.add_text_to_banner\<close>, on the store: the copy, the font, the
  position, the shadow pass when asked for, the main pass. The result is the store
  after the call and the reference returned, or the exception that ended the call.
\<close>

definition add_text_to_banner ::
  "pil \<Rightarrow> heap \<Rightarrow> nat \<Rightarrow> string \<Rightarrow> (int \<times> int) option \<Rightarrow> int \<Rightarrow> string \<Rightarrow> string \<Rightarrow>
   string \<Rightarrow> int \<Rightarrow> string \<Rightarrow> bool \<Rightarrow> heap \<times> (py_error + nat)" where
  "add_text_to_banner P h background text position font_size font_family color alignment
     stroke_width stroke_color shadow =
     (case copy_image h background of (h1, img) \<Rightarrow>
        (let font = get_font P font_size font_family in
         case resolve_position P (h1 ! img) font text position of
           Inl e \<Rightarrow> (h1, Inl e)
         | Inr pos \<Rightarrow>
             (case (if shadow then
                      draw_text P h1 img
                        (Text (fst pos + shadow_offset, snd pos + shadow_offset) text font
                           ''#00000080'' stroke_width ''#00000080'')
                    else (h1, None)) of
                (h2, Some e) \<Rightarrow> (h2, Inl e)
              | (h2, None) \<Rightarrow>
                  (case draw_text P h2 img (Text pos text font color stroke_width stroke_color) of
                     (h3, Some e) \<Rightarrow> (h3, Inl e)
                   | (h3, None) \<Rightarrow> (h3, Inr img)))))"

text \<open>
  Where Pillow puts the ink: \<^verbatim>\<open>textbbox(xy, ...)\<close> is \<^verbatim>\<open>textbbox((0, 0), ...)\<close>
  moved by \<open>xy\<close>. \<open>centre2\<close> is twice the centre of a box, to stay in the integers.
\<close>

definition rendered_bbox :: "int \<times> int \<Rightarrow> box \<Rightarrow> box" where
  "rendered_bbox xy bbox =
     (case bbox of (b0, b1, b2, b3) \<Rightarrow> (fst xy + b0, snd xy + b1, fst xy + b2, snd xy + b3))"

definition centre2 :: "box \<Rightarrow> int \<times> int" where
  "centre2 bbox = (case bbox of (b0, b1, b2, b3) \<Rightarrow> (b0 + b2, b1 + b3))"

text \<open>
  The background of the repository's tests, 800 by 400, and a system on which the DejaVu
  faces are installed. A TrueType face measures \<^verbatim>\<open>TEST\<close> at 48 pixels with the top of
  the capitals some pixels below the origin of the line, here 10.
\<close>

definition banner800 :: image where
  "banner800 = \<lparr> img_width = 800, img_height = 400, img_base = ''#3498db'', img_drawn = [] \<rparr>"

definition truetype_pil :: pil where
  "truetype_pil = strict_pil \<lparr> textbbox := (\<lambda>f s. Inr (0, 10, 119, 45)),
      path_exists := (\<lambda>p. p = ''/usr/share/fonts/truetype/dejavu/DejaVuSans.ttf'' \<or>
                          p = ''/usr/share/fonts/truetype/dejavu/DejaVuSans-Bold.ttf''),
      truetype_loads := (\<lambda>p n. 0 < n) \<rparr>"



section \<open>Metadata: export_with_metadata and load_from_metadata\<close>

text \<open>
  The Python values \<^verbatim>\<open>json.dump\<close> accepts. A float is not-a-number, an infinity, or
  a finite number, named here by its \<^verbatim>\<open>repr\<close> (the shortest decimal text that reads back
  as the same float). The keys of a dict may be strings, integers, floats, booleans or
  \<^verbatim>\<open>None\<close>. A layer is a dict; a position is \<^verbatim>\<open>None\<close> or a pair, written as a tuple
  in the code and its tests.
\<close>

datatype pyfloat = Finite string | PosInf | NegInf | NaN

datatype pykey = KStr string | KInt int | KFloat pyfloat | KBool bool | KNone

datatype pyval =
    PNone
  | PBool bool
  | PInt int
  | PFloat pyfloat
  | PStr string
  | PList "pyval list"
  | PTuple "pyval list"
  | PDict "(pykey \<times> pyval) list"

text \<open>
  A JSON document as written: an object is the list of its members in order, and a name
  may be repeated. Python's \<^verbatim>\<open>json\<close> also writes and reads \<^verbatim>\<open>NaN\<close> and the infinities.
\<close>

datatype json =
    JNull
  | JBool bool
  | JInt int
  | JFloat pyfloat
  | JStr string
  | JArr "json list"
  | JObj "(string \<times> json) list"

text \<open>How \<^verbatim>\<open>json.dump\<close> writes a key that is no string: as the text of its value.\<close>

fun nat_str :: "nat \<Rightarrow> string" where
  "nat_str n =
     (if n < 10 then [char_of (48 + n)] else nat_str (n div 10) @ [char_of (48 + n mod 10)])"

declare nat_str.simps [simp del]

definition int_str :: "int \<Rightarrow> string" where
  "int_str i = (if i < 0 then CHR ''-'' # nat_str (nat (- i)) else nat_str (nat i))"

definition float_str :: "pyfloat \<Rightarrow> string" where
  "float_str f =
     (case f of
        Finite r \<Rightarrow> r
      | PosInf \<Rightarrow> ''Infinity''
      | NegInf \<Rightarrow> ''-Infinity''
      | NaN \<Rightarrow> ''NaN'')"

definition key_str :: "pykey \<Rightarrow> string" where
  "key_str k =
     (case k of
        KStr s \<Rightarrow> s
      | KFloat f \<Rightarrow> float_str f
      | KBool b \<Rightarrow> (if b then ''true'' else ''false'')
      | KNone \<Rightarrow> ''null''
      | KInt i \<Rightarrow> int_str i)"

text \<open>
  \<^verbatim>\<open>json.dump\<close>: a tuple is written as an array, like a list, and every key as a
  string.
\<close>

primrec to_json :: "pyval \<Rightarrow> json" where
  "to_json PNone = JNull"
| "to_json (PBool b) = JBool b"
| "to_json (PInt i) = JInt i"
| "to_json (PFloat f) = JFloat f"
| "to_json (PStr s) = JStr s"
| "to_json (PList xs) = JArr (map to_json xs)"
| "to_json (PTuple xs) = JArr (map to_json xs)"
| "to_json (PDict kvs) = JObj (map (map_prod key_str to_json) kvs)"

text \<open>
  \<^verbatim>\<open>d[k] = v\<close> on a dict: a key already there keeps its place and takes the new value,
  a new key goes to the end. \<^verbatim>\<open>json.load\<close> builds the dict of an object member by
  member, so the last member of a repeated name is the one that stays.
\<close>

fun dict_set :: "('k \<times> 'v) list \<Rightarrow> 'k \<Rightarrow> 'v \<Rightarrow> ('k \<times> 'v) list" where
  "dict_set [] k v = [(k, v)]"
| "dict_set ((k', v') # d) k v =
     (if k' = k then (k', v) # d else (k', v') # dict_set d k v)"

definition dict_of_pairs :: "('k \<times> 'v) list \<Rightarrow> ('k \<times> 'v) list" where
  "dict_of_pairs pairs = foldl (\<lambda>d (k, v). dict_set d k v) [] pairs"

primrec from_json :: "json \<Rightarrow> pyval" where
  "from_json JNull = PNone"
| "from_json (JBool b) = PBool b"
| "from_json (JInt i) = PInt i"
| "from_json (JFloat f) = PFloat f"
| "from_json (JStr s) = PStr s"
| "from_json (JArr xs) = PList (map from_json xs)"
| "from_json (JObj members) = PDict (dict_of_pairs (map (map_prod KStr from_json) members))"

text \<open>A file holds a PNG image or a JSON document; a path with no file maps to \<open>None\<close>.\<close>

datatype fs_file = PngFile image | JsonFile json

type_synonym fs = "string \<Rightarrow> fs_file option"

definition write_file :: "(string \<Rightarrow> bool) \<Rightarrow> fs \<Rightarrow> string \<Rightarrow> fs_file \<Rightarrow> py_error + fs" where
  "write_file writable files path f =
     (if writable path then Inr (files (path \<mapsto> f)) else Inl (OSError path))"

definition export_with_metadata ::
  "(string \<Rightarrow> bool) \<Rightarrow> fs \<Rightarrow> string \<Rightarrow> image \<Rightarrow> pyval list \<Rightarrow>
   py_error + (fs \<times> string \<times> string)" where
  "export_with_metadata writable files output_path background text_layers =
     (let bg_path = output_path @ ''_background.png'' in
      case write_file writable files bg_path (PngFile background) of
        Inl e \<Rightarrow> Inl e
      | Inr files1 \<Rightarrow>
          (let metadata = PDict
                 [(KStr ''width'', PInt (img_width background)),
                  (KStr ''height'', PInt (img_height background)),
                  (KStr ''background'', PStr bg_path),
                  (KStr ''text_layers'', PList text_layers)];
               metadata_path = output_path @ ''_metadata.json''
           in case write_file writable files1 metadata_path (JsonFile (to_json metadata)) of
                Inl e \<Rightarrow> Inl e
              | Inr files2 \<Rightarrow> Inr (files2, bg_path, metadata_path)))"

text \<open>
  \<^verbatim>\<open>metadata[key]\<close>: \<^verbatim>\<open>KeyError\<close> on a dict without the key, \<^verbatim>\<open>TypeError\<close> on a
  value that is no dict. The dict is the one \<open>from_json\<close> built, with each key once.
\<close>

definition subscript :: "pyval \<Rightarrow> string \<Rightarrow> py_error + pyval" where
  "subscript v k =
     (case v of
        PDict kvs \<Rightarrow>
          (case map_of kvs (KStr k) of None \<Rightarrow> Inl (KeyError k) | Some x \<Rightarrow> Inr x)
      | _ \<Rightarrow> Inl TypeError)"

definition image_open :: "fs \<Rightarrow> pyval \<Rightarrow> py_error + image" where
  "image_open files v =
     (case v of
        PStr p \<Rightarrow>
          (case files p of
             None \<Rightarrow> Inl (FileNotFoundError p)
           | Some (PngFile img) \<Rightarrow> Inr img
           | Some (JsonFile j) \<Rightarrow> Inl (UnidentifiedImageError p))
      | _ \<Rightarrow> Inl AttributeError)"

definition load_from_metadata :: "fs \<Rightarrow> string \<Rightarrow> py_error + (image \<times> pyval)" where
  "load_from_metadata files metadata_path =
     (case files metadata_path of
        None \<Rightarrow> Inl (FileNotFoundError metadata_path)
      | Some (PngFile img) \<Rightarrow> Inl ValueError
      | Some (JsonFile j) \<Rightarrow>
          (let metadata = from_json j in
           case subscript metadata ''background'' of
             Inl e \<Rightarrow> Inl e
           | Inr p \<Rightarrow>
               (case image_open files p of
                  Inl e \<Rightarrow> Inl e
                | Inr background \<Rightarrow>
                    (case subscript metadata ''text_layers'' of
                       Inl e \<Rightarrow> Inl e
                     | Inr text_layers \<Rightarrow> Inr (background, text_layers)))))"





text \<open>The member of an object that \<^verbatim>\<open>json.load\<close> keeps for a name: the last one.\<close>

definition last_member :: "(string \<times> json) list \<Rightarrow> string \<Rightarrow> json option" where
  "last_member members name = map_of (rev members) name"

text \<open>Export followed by import, on the file system the export leaves.\<close>

definition export_then_load ::
  "(string \<Rightarrow> bool) \<Rightarrow> fs \<Rightarrow> string \<Rightarrow> image \<Rightarrow> pyval list \<Rightarrow> py_error + (image \<times> pyval)" where
  "export_then_load writable files output_path background text_layers =
     (case export_with_metadata writable files output_path background text_layers of
        Inl e \<Rightarrow> Inl e
      | Inr (files', bg_path, metadata_path) \<Rightarrow> load_from_metadata files' metadata_path)"



text \<open>
  File systems to run the import on: a metadata document with neither width nor height,
  and documents lacking the background, its file, or the layers, and one that names the
  background twice.
\<close>

definition files_without_size :: fs where
  "files_without_size =
     (\<lambda>p. if p = ''banner_metadata.json'' then
            Some (JsonFile (JObj [(''background'', JStr ''banner_background.png''),
                                  (''text_layers'', JArr [])]))
          else if p = ''banner_background.png'' then Some (PngFile banner800)
          else None)"

definition files_broken :: fs where
  "files_broken =
     (\<lambda>p. if p = ''no_background.json'' then
            Some (JsonFile (JObj [(''width'', JInt 800), (''height'', JInt 400),
                                  (''text_layers'', JArr [])]))
          else if p = ''no_file.json'' then
            Some (JsonFile (JObj [(''width'', JInt 800), (''height'', JInt 400),
                                  (''background'', JStr ''gone.png''),
                                  (''text_layers'', JArr [])]))
          else if p = ''no_layers.json'' then
            Some (JsonFile (JObj [(''width'', JInt 800), (''height'', JInt 400),
                                  (''background'', JStr ''banner_background.png'')]))
          else if p = ''repeated.json'' then
            Some (JsonFile (JObj [(''background'', JStr ''gone.png''),
                                  (''background'', JStr ''banner_background.png''),
                                  (''text_layers'', JArr [])]))
          else if p = ''banner_background.png'' then Some (PngFile banner800)
          else None)"

section \<open>The advisor's answer: parse_design_response\<close>

text \<open>\<^verbatim>\<open>str.find\<close> and \<^verbatim>\<open>str.rfind\<close> of one character, and the slice \<^verbatim>\<open>s[a:b]\<close>.\<close>

fun py_find :: "string \<Rightarrow> char \<Rightarrow> int" where
  "py_find [] c = - 1"
| "py_find (x # xs) c =
     (if x = c then 0 else (let i = py_find xs c in if i = - 1 then - 1 else i + 1))"

fun py_rfind :: "string \<Rightarrow> char \<Rightarrow> int" where
  "py_rfind [] c = - 1"
| "py_rfind (x # xs) c =
     (let i = py_rfind xs c in if i \<noteq> - 1 then i + 1 else if x = c then 0 else - 1)"

definition slice_index :: "int \<Rightarrow> int \<Rightarrow> int" where
  "slice_index i n = (if i < 0 then max (i + n) 0 else min i n)"

definition py_slice :: "string \<Rightarrow> int \<Rightarrow> int \<Rightarrow> string" where
  "py_slice s a b =
     (let n = int (length s); a' = slice_index a n; b' = slice_index b n
      in take (nat (b' - a')) (drop (nat a') s))"

definition default_design :: "string \<Rightarrow> pyval" where
  "default_design response =
     PDict
       [(KStr ''raw_response'', PStr response),
        (KStr ''concept'', PStr ''See raw response''),
        (KStr ''colors'',
           PList [PStr ''#3498db'', PStr ''#2ecc71'', PStr ''#f39c12'', PStr ''#e74c3c'',
                  PStr ''#ffffff'']),
        (KStr ''typography'', PStr ''Sans-serif, bold''),
        (KStr ''layout'', PStr ''center''),
        (KStr ''image_prompt'', PStr ''professional modern abstract background'')]"

text \<open>
  \<^verbatim>\<open>BannerLord.parse_design_response\<close>. \<open>loads\<close> is \<^verbatim>\<open>json.loads\<close>, \<open>None\<close> where it
  raises; the bare \<^verbatim>\<open>except: pass\<close> leads every exception to the default.
\<close>

definition parse_design_response :: "(string \<Rightarrow> pyval option) \<Rightarrow> string \<Rightarrow> pyval" where
  "parse_design_response loads response =
     (let start = py_find response (CHR ''{'');
          end = py_rfind response (CHR ''}'') + 1
      in if start \<noteq> - 1 \<and> end \<noteq> 0 then
           (case loads (py_slice response start end) of
              Some parsed \<Rightarrow> parsed
            | None \<Rightarrow> default_design response)
         else default_design response)"

text \<open>
  From the specification's words: the substring from the first \<^verbatim>\<open>{\<close> to the last
  \<^verbatim>\<open>}\<close>, both included; there is none when one of them is missing or the last
  \<^verbatim>\<open>}\<close> comes before the first \<^verbatim>\<open>{\<close>.
\<close>

definition brace_span :: "string \<Rightarrow> string option" where
  "brace_span response =
     (let from_open = dropWhile (\<lambda>c. c \<noteq> CHR ''{'') response;
          span = rev (dropWhile (\<lambda>c. c \<noteq> CHR ''}'') (rev from_open))
      in if span = [] then None else Some span)"

definition dict_get :: "pyval \<Rightarrow> string \<Rightarrow> pyval option" where
  "dict_get v k = (case v of PDict kvs \<Rightarrow> map_of kvs (KStr k) | _ \<Rightarrow> None)"

section \<open>Properties of the guidance sketch\<close>



lemma draw_all_Inr:
  "draw_all P cs img = Inr img' \<Longrightarrow> img' = img \<lparr> img_drawn := img_drawn img @ cs \<rparr>"
proof (induction cs arbitrary: img)
  case Nil
  then show ?case by simp
next
  case (Cons c cs)
  show ?case
  proof (cases "call_raises P c")
    case None
    with Cons.prems
    have "draw_all P cs (img \<lparr> img_drawn := img_drawn img @ [c] \<rparr>) = Inr img'"
      by simp
    from Cons.IH [OF this] show ?thesis by simp
  next
    case (Some e)
    with Cons.prems show ?thesis by simp
  qed
qed

lemma draw_all_Inl:
  "draw_all P cs img = Inl e \<Longrightarrow> \<exists>c. c \<in> set cs \<and> call_raises P c = Some e"
proof (induction cs arbitrary: img)
  case Nil
  then show ?case by simp
next
  case (Cons c cs)
  then show ?case
    by (cases "call_raises P c") auto
qed

lemma draw_all_returns_iff:
  "(\<exists>img'. draw_all P cs img = Inr img') \<longleftrightarrow> list_all (\<lambda>c. call_raises P c = None) cs"
proof (induction cs arbitrary: img)
  case Nil
  show ?case by simp
next
  case (Cons c cs)
  show ?case
  proof (cases "call_raises P c")
    case None
    with Cons.IH [of "img \<lparr> img_drawn := img_drawn img @ [c] \<rparr>"] show ?thesis by simp
  next
    case (Some e)
    then show ?thesis by simp
  qed
qed

lemma create_control_image_drawn:
  assumes "create_control_image P width height text_position layout_type = Inr img"
  shows "img = \<lparr> img_width = width, img_height = height, img_base = ''white'',
                 img_drawn = layout_shapes width height layout_type @
                   [Rectangle TextArea (text_box width height text_position) 2] \<rparr>"
proof (cases "new_raises P width height")
  case None
  with assms show ?thesis
    by (auto simp: create_control_image_def dest: draw_all_Inr)
next
  case (Some e)
  with assms show ?thesis by (simp add: create_control_image_def)
qed

lemma div_bounds:
  fixes w :: int
  assumes "0 < w"
  shows "0 \<le> w div 2" "w div 2 \<le> w" "0 \<le> w div 3" "w div 3 \<le> w"
    "0 \<le> (2 * w) div 3" "(2 * w) div 3 \<le> w" "0 \<le> w div 4" "w div 4 \<le> w"
    "0 \<le> (3 * w) div 4" "(3 * w) div 4 \<le> w"
  using assms by presburger+

lemma inside_layout_shapes:
  assumes "0 < width" "0 < height"
  shows "list_all (\<lambda>c. inside width height (shape_box c)) (layout_shapes width height layout_type)"
proof -
  have "inside width height (0, 0, width - 1, height - 1)"
    using assms by (simp add: inside_def)
  moreover have "inside width height (width div 3, 0, width div 3, height)"
    unfolding inside_def prod.case using div_bounds [OF assms(1)] assms(2) by simp
  moreover have "inside width height ((2 * width) div 3, 0, (2 * width) div 3, height)"
    unfolding inside_def prod.case using div_bounds [OF assms(1)] assms(2) by simp
  moreover have "inside width height (width div 2, 0, width div 2, height)"
    unfolding inside_def prod.case using div_bounds [OF assms(1)] assms(2) by simp
  ultimately show ?thesis by (simp add: layout_shapes_def)
qed

lemma inside_text_box_center:
  assumes "0 < width" "0 < height"
  shows "inside width height (width div 4, height div 3, (3 * width) div 4, (2 * height) div 3)"
  unfolding inside_def prod.case
  using div_bounds [OF assms(1)] div_bounds [OF assms(2)] by blast

lemma draw_all_accepts:
  "list_all (\<lambda>c. call_raises P c = None) cs \<Longrightarrow>
   draw_all P cs img = Inr (img \<lparr> img_drawn := img_drawn img @ cs \<rparr>)"
  by (induction cs arbitrary: img) auto

lemma create_control_image_accepts:
  assumes "new_raises P width height = None"
    and "list_all (\<lambda>c. call_raises P c = None)
           (layout_shapes width height layout_type @
            [Rectangle TextArea (text_box width height text_position) 2])"
  shows "create_control_image P width height text_position layout_type =
           Inr \<lparr> img_width = width, img_height = height, img_base = ''white'',
                 img_drawn = layout_shapes width height layout_type @
                   [Rectangle TextArea (text_box width height text_position) 2] \<rparr>"
  unfolding create_control_image_def using assms(1) draw_all_accepts [OF assms(2)]
  by simp

lemma left_fits:
  fixes w :: int
  assumes "0 < w"
  shows "(50 \<le> w \<and> 0 \<le> w div 2 - 50 \<and> w div 2 - 50 \<le> w) \<longleftrightarrow> 100 \<le> w"
  using assms by presburger

lemma right_fits:
  fixes w :: int
  assumes "0 < w"
  shows "(0 \<le> w div 2 + 50 \<and> w div 2 + 50 \<le> w \<and> 0 \<le> w - 50 \<and> w - 50 \<le> w) \<longleftrightarrow> 99 \<le> w"
  using assms by presburger

lemma inside_left:
  assumes "0 < width" "0 < height"
  shows "inside width height (padding, height div 4, width div 2 - padding, (3 * height) div 4)
           \<longleftrightarrow> 100 \<le> width"
proof -
  note h = div_bounds [OF assms(2)]
  have "inside width height (padding, height div 4, width div 2 - padding, (3 * height) div 4)
          \<longleftrightarrow> (50 \<le> width \<and> 0 \<le> width div 2 - 50 \<and> width div 2 - 50 \<le> width)"
    unfolding inside_def padding_def prod.case using h(7,8,9,10) by auto
  with left_fits [OF assms(1)] show ?thesis by simp
qed

lemma inside_right:
  assumes "0 < width" "0 < height"
  shows "inside width height
           (width div 2 + padding, height div 4, width - padding, (3 * height) div 4)
           \<longleftrightarrow> 99 \<le> width"
proof -
  note h = div_bounds [OF assms(2)]
  have "inside width height
          (width div 2 + padding, height div 4, width - padding, (3 * height) div 4)
          \<longleftrightarrow> (0 \<le> width div 2 + 50 \<and> width div 2 + 50 \<le> width \<and>
               0 \<le> width - 50 \<and> width - 50 \<le> width)"
    unfolding inside_def padding_def prod.case using h(7,8,9,10) by auto
  with right_fits [OF assms(1)] show ?thesis by simp
qed

lemma inside_top:
  assumes "0 < width" "0 < height"
  shows "inside width height (padding, padding, width - padding, height div 3)
           \<longleftrightarrow> 50 \<le> width \<and> 50 \<le> height"
proof -
  note h = div_bounds [OF assms(2)]
  show ?thesis
    unfolding inside_def padding_def prod.case using h(3,4) by auto
qed

lemma inside_bottom:
  assumes "0 < width" "0 < height"
  shows "inside width height (padding, (2 * height) div 3, width - padding, height - padding)
           \<longleftrightarrow> 50 \<le> width \<and> 50 \<le> height"
proof -
  note h = div_bounds [OF assms(2)]
  show ?thesis
    unfolding inside_def padding_def prod.case using h(5,6) by auto
qed

lemma inside_text_box_iff:
  assumes "0 < width" "0 < height"
  shows "inside width height (text_box width height text_position) \<longleftrightarrow>
           (text_position = ''left'' \<longrightarrow> 100 \<le> width) \<and>
           (text_position = ''right'' \<longrightarrow> 99 \<le> width) \<and>
           (text_position = ''top'' \<or> text_position = ''bottom'' \<longrightarrow>
              50 \<le> width \<and> 50 \<le> height)"
proof -
  consider "text_position = ''left''" | "text_position = ''right''"
    | "text_position = ''top''" | "text_position = ''bottom''"
    | "text_position \<notin> {''left'', ''right'', ''top'', ''bottom''}"
    by blast
  then show ?thesis
  proof cases
    case 1
    with inside_left [OF assms] show ?thesis by (simp add: text_box_def)
  next
    case 2
    with inside_right [OF assms] show ?thesis by (simp add: text_box_def)
  next
    case 3
    with inside_top [OF assms] show ?thesis by (simp add: text_box_def)
  next
    case 4
    with inside_bottom [OF assms] show ?thesis by (simp add: text_box_def)
  next
    case 5
    then have "text_box width height text_position =
       (width div 4, height div 3, (3 * width) div 4, (2 * height) div 3)"
      by (simp add: text_box_def)
    with inside_text_box_center [OF assms] 5 show ?thesis by simp
  qed
qed

lemma one_text_area:
  "length (filter is_text_area (layout_shapes width height layout_type @
     [Rectangle TextArea b 2])) = 1"
  by (simp add: layout_shapes_def is_text_area_def)



text \<open>
  Claim C2, as the code has it. \<^verbatim>\<open>create_control_image\<close> checks neither the width
  nor the height and knows no error for them: it returns a sketch exactly when Pillow
  accepts the canvas size and every drawing call, whatever the width, the height, the
  layout type and the text position are, and an error it ends with is the one Pillow
  raised for the canvas or for one of the calls.
\<close>

theorem no_dimension_check:
  "((\<exists>img. create_control_image P width height text_position layout_type = Inr img) \<longleftrightarrow>
      new_raises P width height = None \<and>
      list_all (\<lambda>c. call_raises P c = None)
        (layout_shapes width height layout_type @
         [Rectangle TextArea (text_box width height text_position) 2])) \<and>
   (create_control_image P width height text_position layout_type = Inl e \<longrightarrow>
      new_raises P width height = Some e \<or>
      (\<exists>c. c \<in> set (layout_shapes width height layout_type @
                  [Rectangle TextArea (text_box width height text_position) 2]) \<and>
           call_raises P c = Some e))"
proof (cases "new_raises P width height")
  case None
  then show ?thesis
    unfolding create_control_image_def
    using draw_all_returns_iff draw_all_Inl by (simp only: option.case) blast
next
  case (Some e')
  then show ?thesis
    unfolding create_control_image_def by simp
qed

theorem no_dimension_check_witness:
  "create_control_image strict_pil (- 5) 512 ''center'' ''minimal'' = Inl ValueError \<and>
   new_raises strict_pil (- 5) 512 = Some ValueError"
proof -
  have r: "create_control_image strict_pil (- 5) 512 ''center'' ''minimal'' = Inl ValueError"
    by (simp add: create_control_image_def strict_pil_def)
  have n: "new_raises strict_pil (- 5) 512 = Some ValueError"
    by (simp add: strict_pil_def)
  from no_dimension_check [of strict_pil "- 5" 512 "''center''" "''minimal''" ValueError] r n
  show ?thesis by simp
qed

text \<open>
  Claim C2 as stated fails: a canvas of width 0 and height 0 is drawn (no layout, the
  text box in the centre) even by the library that refuses negative sizes and inverted
  rectangles; with a library that accepts every call so is a canvas of width 0 with the
  border and a text box on the left; and a negative width ends with Pillow's
  \<^verbatim>\<open>ValueError\<close>.
\<close>

theorem zero_size_counterexample:
  "create_control_image strict_pil 0 0 ''center'' ''plain'' =
     Inr \<lparr> img_width = 0, img_height = 0, img_base = ''white'',
           img_drawn = [Rectangle TextArea (0, 0, 0, 0) 2] \<rparr> \<and>
   create_control_image lenient_pil 0 512 ''left'' ''minimal'' =
     Inr \<lparr> img_width = 0, img_height = 512, img_base = ''white'',
           img_drawn = [Rectangle GuidanceBorder (0, 0, - 1, 511) 3,
                        Rectangle TextArea (50, 128, - 50, 384) 2] \<rparr> \<and>
   create_control_image strict_pil (- 5) 512 ''center'' ''minimal'' = Inl ValueError"
  by (simp add: create_control_image_def lenient_pil_def strict_pil_def layout_shapes_def
        text_box_def padding_def call_raises_def)

text \<open>
  Claim C3, as the code has it. For a positive width and height and one of the three
  layout types, a sketch that is returned has exactly one text-area region, and all its
  regions lie within the canvas exactly when the fixed padding of 50 pixels fits:
  always for \<^verbatim>\<open>center\<close> and an unknown position, for \<^verbatim>\<open>left\<close> when the width is at
  least 100, for \<^verbatim>\<open>right\<close> when it is at least 99, for \<^verbatim>\<open>top\<close> and \<^verbatim>\<open>bottom\<close> when
  width and height are at least 50. The sketch is returned whenever Pillow accepts the
  canvas and the drawing calls.
\<close>

theorem regions_inside_canvas:
  assumes "0 < width" "0 < height"
    and "layout_type \<in> {''minimal'', ''geometric'', ''split''}"
  shows "(\<forall>img. create_control_image P width height text_position layout_type = Inr img \<longrightarrow>
            length (filter is_text_area (img_drawn img)) = 1 \<and>
            (list_all (\<lambda>c. inside width height (shape_box c)) (img_drawn img) \<longleftrightarrow>
               (text_position = ''left'' \<longrightarrow> 100 \<le> width) \<and>
               (text_position = ''right'' \<longrightarrow> 99 \<le> width) \<and>
               (text_position = ''top'' \<or> text_position = ''bottom'' \<longrightarrow>
                  50 \<le> width \<and> 50 \<le> height))) \<and>
         (new_raises P width height = None \<and>
          list_all (\<lambda>c. call_raises P c = None)
            (layout_shapes width height layout_type @
             [Rectangle TextArea (text_box width height text_position) 2]) \<longrightarrow>
          (\<exists>img. create_control_image P width height text_position layout_type = Inr img))"
proof (intro conjI allI impI)
  fix img
  assume r: "create_control_image P width height text_position layout_type = Inr img"
  from create_control_image_drawn [OF r]
  have d: "img_drawn img = layout_shapes width height layout_type @
             [Rectangle TextArea (text_box width height text_position) 2]"
    by simp
  show "length (filter is_text_area (img_drawn img)) = 1"
    unfolding d by (rule one_text_area)
  have "list_all (\<lambda>c. inside width height (shape_box c)) (img_drawn img) \<longleftrightarrow>
          inside width height (text_box width height text_position)"
    unfolding d using inside_layout_shapes [OF assms(1,2), of layout_type] by simp
  then show "list_all (\<lambda>c. inside width height (shape_box c)) (img_drawn img) \<longleftrightarrow>
               (text_position = ''left'' \<longrightarrow> 100 \<le> width) \<and>
               (text_position = ''right'' \<longrightarrow> 99 \<le> width) \<and>
               (text_position = ''top'' \<or> text_position = ''bottom'' \<longrightarrow>
                  50 \<le> width \<and> 50 \<le> height)"
    unfolding inside_text_box_iff [OF assms(1,2)] .
next
  assume "new_raises P width height = None \<and>
          list_all (\<lambda>c. call_raises P c = None)
            (layout_shapes width height layout_type @
             [Rectangle TextArea (text_box width height text_position) 2])"
  then have "new_raises P width height = None"
    and "list_all (\<lambda>c. call_raises P c = None)
            (layout_shapes width height layout_type @
             [Rectangle TextArea (text_box width height text_position) 2])"
    by simp_all
  from create_control_image_accepts [OF this]
  show "\<exists>img. create_control_image P width height text_position layout_type = Inr img"
    by blast
qed

theorem regions_inside_canvas_witness:
  "(0::int) < 200 \<and> (0::int) < 40 \<and>
   ''minimal'' \<in> {''minimal'', ''geometric'', ''split''} \<and>
   new_raises strict_pil 200 40 = None \<and>
   create_control_image strict_pil 200 40 ''left'' ''minimal'' =
     Inr \<lparr> img_width = 200, img_height = 40, img_base = ''white'',
           img_drawn = [Rectangle GuidanceBorder (0, 0, 199, 39) 3,
                        Rectangle TextArea (50, 10, 50, 30) 2] \<rparr> \<and>
   length (filter is_text_area
     [Rectangle GuidanceBorder (0, 0, 199, 39) 3,
      Rectangle TextArea (50, 10, 50, 30) 2]) = 1 \<and>
   list_all (\<lambda>c. inside 200 40 (shape_box c))
     [Rectangle GuidanceBorder (0, 0, 199, 39) 3,
      Rectangle TextArea (50, 10, 50, 30) 2]"
proof -
  have w: "(0::int) < 200" and h: "(0::int) < 40" by simp_all
  have l: "''minimal'' \<in> {''minimal'', ''geometric'', ''split''}" by simp
  have n: "new_raises strict_pil 200 40 = None"
    by (simp add: strict_pil_def)
  have a: "list_all (\<lambda>c. call_raises strict_pil c = None)
            (layout_shapes 200 40 ''minimal'' @
             [Rectangle TextArea (text_box 200 40 ''left'') 2])"
    by (simp add: strict_pil_def layout_shapes_def text_box_def padding_def call_raises_def)
  have r: "create_control_image strict_pil 200 40 ''left'' ''minimal'' =
     Inr \<lparr> img_width = 200, img_height = 40, img_base = ''white'',
           img_drawn = [Rectangle GuidanceBorder (0, 0, 199, 39) 3,
                        Rectangle TextArea (50, 10, 50, 30) 2] \<rparr>"
    by (simp add: create_control_image_def strict_pil_def layout_shapes_def
          text_box_def padding_def call_raises_def)
  from regions_inside_canvas [OF w h l, of strict_pil "''left''"] w h l n a r
  show ?thesis by simp
qed

text \<open>
  Claim C3 as stated fails on a small canvas. At 40 by 40 with the text on the left the
  text box runs from x = 50 to x = -30: a library that refuses an inverted rectangle
  raises \<^verbatim>\<open>ValueError\<close> and no region is returned, and one that draws it returns a text
  area outside the canvas on both sides.
\<close>

theorem small_canvas_counterexample:
  "create_control_image strict_pil 40 40 ''left'' ''minimal'' = Inl ValueError \<and>
   create_control_image lenient_pil 40 40 ''left'' ''minimal'' =
     Inr \<lparr> img_width = 40, img_height = 40, img_base = ''white'',
           img_drawn = [Rectangle GuidanceBorder (0, 0, 39, 39) 3,
                        Rectangle TextArea (50, 10, - 30, 30) 2] \<rparr> \<and>
   \<not> inside 40 40 (50, 10, - 30, 30)"
  by (simp add: create_control_image_def lenient_pil_def strict_pil_def layout_shapes_def
        text_box_def padding_def call_raises_def inside_def)


text \<open>
  On a library that refuses inverted rectangles, a text box that is drawn is upright,
  and an upright text box lies within the canvas: there the padding that does not fit
  shows as an exception, never as a region outside.
\<close>

lemma strict_accepts_box:
  "call_raises strict_pil (Rectangle r (x0, y0, x1, y1) w) = None \<longleftrightarrow> x0 \<le> x1 \<and> y0 \<le> y1"
  by (auto simp: call_raises_def strict_pil_def)

lemma upright_fits:
  fixes w h :: int
  shows "50 \<le> w div 2 - 50 \<Longrightarrow> 100 \<le> w"
    and "w div 2 + 50 \<le> w - 50 \<Longrightarrow> 99 \<le> w"
    and "50 \<le> h div 3 \<Longrightarrow> 50 \<le> h"
    and "50 \<le> w - 50 \<Longrightarrow> 50 \<le> w"
    and "0 < h \<Longrightarrow> (2 * h) div 3 \<le> h - 50 \<Longrightarrow> 50 \<le> h"
  by presburger+

lemma strict_sketch_inside:
  assumes "0 < width" "0 < height"
    and "create_control_image strict_pil width height text_position layout_type = Inr img"
  shows "inside width height (text_box width height text_position)"
proof -
  from create_control_image_drawn [OF assms(3)]
  have d: "img_drawn img = layout_shapes width height layout_type @
             [Rectangle TextArea (text_box width height text_position) 2]"
    by simp
  have "\<exists>img'. draw_all strict_pil
          (layout_shapes width height layout_type @
           [Rectangle TextArea (text_box width height text_position) 2])
          \<lparr> img_width = width, img_height = height, img_base = ''white'', img_drawn = [] \<rparr>
          = Inr img'"
    using assms(3) unfolding create_control_image_def
    by (cases "new_raises strict_pil width height") auto
  then have ok: "call_raises strict_pil
                   (Rectangle TextArea (text_box width height text_position) 2) = None"
    unfolding draw_all_returns_iff by simp
  consider "text_position = ''left''" | "text_position = ''right''"
    | "text_position = ''top''" | "text_position = ''bottom''"
    | "text_position \<notin> {''left'', ''right'', ''top'', ''bottom''}"
    by blast
  then have "(text_position = ''left'' \<longrightarrow> 100 \<le> width) \<and>
           (text_position = ''right'' \<longrightarrow> 99 \<le> width) \<and>
           (text_position = ''top'' \<or> text_position = ''bottom'' \<longrightarrow>
              50 \<le> width \<and> 50 \<le> height)"
  proof cases
    case 1
    then have tb: "text_box width height text_position =
        (50, height div 4, width div 2 - 50, (3 * height) div 4)"
      by (simp add: text_box_def padding_def)
    from ok [unfolded tb strict_accepts_box] have "50 \<le> width div 2 - 50" by blast
    then have "100 \<le> width" by (rule upright_fits(1))
    with 1 show ?thesis by simp
  next
    case 2
    then have tb: "text_box width height text_position =
        (width div 2 + 50, height div 4, width - 50, (3 * height) div 4)"
      by (simp add: text_box_def padding_def)
    from ok [unfolded tb strict_accepts_box] have "width div 2 + 50 \<le> width - 50" by blast
    then have "99 \<le> width" by (rule upright_fits(2))
    with 2 show ?thesis by simp
  next
    case 3
    then have tb: "text_box width height text_position = (50, 50, width - 50, height div 3)"
      by (simp add: text_box_def padding_def)
    from ok [unfolded tb strict_accepts_box]
    have a: "50 \<le> width - 50" and b: "50 \<le> height div 3" by blast+
    have "50 \<le> width" using a by (rule upright_fits(4))
    moreover have "50 \<le> height" using b by (rule upright_fits(3))
    ultimately show ?thesis using 3 by simp
  next
    case 4
    then have tb: "text_box width height text_position =
        (50, (2 * height) div 3, width - 50, height - 50)"
      by (simp add: text_box_def padding_def)
    from ok [unfolded tb strict_accepts_box]
    have a: "50 \<le> width - 50" and b: "(2 * height) div 3 \<le> height - 50" by blast+
    have "50 \<le> width" using a by (rule upright_fits(4))
    moreover have "50 \<le> height" using b by (rule upright_fits(5) [OF assms(2)])
    ultimately show ?thesis using 4 by simp
  next
    case 5
    then show ?thesis by simp
  qed
  then show ?thesis unfolding inside_text_box_iff [OF assms(1,2)] .
qed

lemma strict_accepts_center:
  assumes "0 < width" "0 < height"
  shows "list_all (\<lambda>c. call_raises strict_pil c = None)
           (layout_shapes width height layout_type @
            [Rectangle TextArea
               (width div 4, height div 3, (3 * width) div 4, (2 * height) div 3) 2])"
proof -
  have q: "a div 4 \<le> (3 * a) div 4" "a div 3 \<le> (2 * a) div 3" if "0 < a" for a :: int
    using that by presburger+
  have t: "call_raises strict_pil (Rectangle TextArea
               (width div 4, height div 3, (3 * width) div 4, (2 * height) div 3) 2) = None"
    unfolding strict_accepts_box using q(1) [OF assms(1)] q(2) [OF assms(2)] by blast
  have b: "call_raises strict_pil
             (Rectangle GuidanceBorder (0, 0, width - 1, height - 1) 3) = None"
    unfolding strict_accepts_box using assms by simp
  have l: "call_raises strict_pil (Line r bx w) = None" for r bx w
    by (simp add: call_raises_def strict_pil_def)
  from t b l show ?thesis by (simp add: layout_shapes_def)
qed

text \<open>
  Claim C5. A text position that is none of \<^verbatim>\<open>left\<close>, \<^verbatim>\<open>center\<close>, \<^verbatim>\<open>right\<close>,
  \<^verbatim>\<open>top\<close>, \<^verbatim>\<open>bottom\<close> gives the text box of \<^verbatim>\<open>center\<close>, from a quarter to three
  quarters of the width and from a third to two thirds of the height. The call does
  what it does for \<^verbatim>\<open>center\<close>; the sketch it returns holds the layout shapes and that
  box as its text area; it returns whenever Pillow accepts the canvas and the calls, and
  for a positive width and height also on the library that refuses inverted
  rectangles: the unknown value is no error.
\<close>

theorem unknown_text_position_is_center:
  assumes "text_position \<notin> {''left'', ''center'', ''right'', ''top'', ''bottom''}"
  shows "text_box width height text_position =
           (width div 4, height div 3, (3 * width) div 4, (2 * height) div 3) \<and>
         text_box width height text_position = text_box width height ''center'' \<and>
         create_control_image P width height text_position layout_type =
           create_control_image P width height ''center'' layout_type \<and>
         (\<forall>img. create_control_image P width height text_position layout_type = Inr img \<longrightarrow>
            img = \<lparr> img_width = width, img_height = height, img_base = ''white'',
                    img_drawn = layout_shapes width height layout_type @
                      [Rectangle TextArea
                         (width div 4, height div 3, (3 * width) div 4, (2 * height) div 3)
                         2] \<rparr>) \<and>
         (new_raises P width height = None \<and>
          list_all (\<lambda>c. call_raises P c = None)
            (layout_shapes width height layout_type @
             [Rectangle TextArea
                (width div 4, height div 3, (3 * width) div 4, (2 * height) div 3) 2]) \<longrightarrow>
          create_control_image P width height text_position layout_type =
            Inr \<lparr> img_width = width, img_height = height, img_base = ''white'',
                  img_drawn = layout_shapes width height layout_type @
                    [Rectangle TextArea
                       (width div 4, height div 3, (3 * width) div 4, (2 * height) div 3)
                       2] \<rparr>) \<and>
         (0 < width \<and> 0 < height \<longrightarrow>
          create_control_image strict_pil width height text_position layout_type =
            Inr \<lparr> img_width = width, img_height = height, img_base = ''white'',
                  img_drawn = layout_shapes width height layout_type @
                    [Rectangle TextArea
                       (width div 4, height div 3, (3 * width) div 4, (2 * height) div 3)
                       2] \<rparr>)"
proof -
  from assms
  have eq: "text_box width height text_position = text_box width height ''center''"
    by (simp add: text_box_def)
  have c: "text_box width height ''center'' =
          (width div 4, height div 3, (3 * width) div 4, (2 * height) div 3)"
    by (simp add: text_box_def)
  have tb: "text_box width height text_position =
          (width div 4, height div 3, (3 * width) div 4, (2 * height) div 3)"
    unfolding eq c ..
  have same: "create_control_image P width height text_position layout_type =
           create_control_image P width height ''center'' layout_type"
    unfolding create_control_image_def eq ..
  have drawn: "img = \<lparr> img_width = width, img_height = height, img_base = ''white'',
                    img_drawn = layout_shapes width height layout_type @
                      [Rectangle TextArea
                         (width div 4, height div 3, (3 * width) div 4, (2 * height) div 3)
                         2] \<rparr>"
    if "create_control_image P width height text_position layout_type = Inr img" for img
    using create_control_image_drawn [OF that] unfolding tb .
  have returns: "create_control_image Q width height text_position layout_type =
            Inr \<lparr> img_width = width, img_height = height, img_base = ''white'',
                  img_drawn = layout_shapes width height layout_type @
                    [Rectangle TextArea
                       (width div 4, height div 3, (3 * width) div 4, (2 * height) div 3)
                       2] \<rparr>"
    if "new_raises Q width height = None"
      and "list_all (\<lambda>c. call_raises Q c = None)
            (layout_shapes width height layout_type @
             [Rectangle TextArea
                (width div 4, height div 3, (3 * width) div 4, (2 * height) div 3) 2])"
    for Q
    using create_control_image_accepts [of Q width height layout_type text_position] that
    unfolding tb by simp
  have strict: "create_control_image strict_pil width height text_position layout_type =
            Inr \<lparr> img_width = width, img_height = height, img_base = ''white'',
                  img_drawn = layout_shapes width height layout_type @
                    [Rectangle TextArea
                       (width div 4, height div 3, (3 * width) div 4, (2 * height) div 3)
                       2] \<rparr>"
    if "0 < width" "0 < height"
  proof (rule returns)
    from that show "new_raises strict_pil width height = None"
      by (simp add: strict_pil_def)
    from that show "list_all (\<lambda>c. call_raises strict_pil c = None)
            (layout_shapes width height layout_type @
             [Rectangle TextArea
                (width div 4, height div 3, (3 * width) div 4, (2 * height) div 3) 2])"
      by (rule strict_accepts_center)
  qed
  show ?thesis
  proof (intro conjI allI impI)
    show "text_box width height text_position =
           (width div 4, height div 3, (3 * width) div 4, (2 * height) div 3)" by (rule tb)
    show "text_box width height text_position = text_box width height ''center''" by (rule eq)
    show "create_control_image P width height text_position layout_type =
           create_control_image P width height ''center'' layout_type" by (rule same)
  next
    fix img
    assume "create_control_image P width height text_position layout_type = Inr img"
    then show "img = \<lparr> img_width = width, img_height = height, img_base = ''white'',
                    img_drawn = layout_shapes width height layout_type @
                      [Rectangle TextArea
                         (width div 4, height div 3, (3 * width) div 4, (2 * height) div 3)
                         2] \<rparr>"
      by (rule drawn)
  next
    assume "new_raises P width height = None \<and>
          list_all (\<lambda>c. call_raises P c = None)
            (layout_shapes width height layout_type @
             [Rectangle TextArea
                (width div 4, height div 3, (3 * width) div 4, (2 * height) div 3) 2])"
    then show "create_control_image P width height text_position layout_type =
            Inr \<lparr> img_width = width, img_height = height, img_base = ''white'',
                  img_drawn = layout_shapes width height layout_type @
                    [Rectangle TextArea
                       (width div 4, height div 3, (3 * width) div 4, (2 * height) div 3)
                       2] \<rparr>"
      using returns [of P] by blast
  next
    assume "0 < width \<and> 0 < height"
    then show "create_control_image strict_pil width height text_position layout_type =
            Inr \<lparr> img_width = width, img_height = height, img_base = ''white'',
                  img_drawn = layout_shapes width height layout_type @
                    [Rectangle TextArea
                       (width div 4, height div 3, (3 * width) div 4, (2 * height) div 3)
                       2] \<rparr>"
      using strict by blast
  qed
qed

theorem unknown_text_position_is_center_witness:
  "''middle'' \<notin> {''left'', ''center'', ''right'', ''top'', ''bottom''} \<and>
   text_box 800 400 ''middle'' = (200, 133, 600, 266) \<and>
   create_control_image strict_pil 800 400 ''middle'' ''geometric'' =
     Inr \<lparr> img_width = 800, img_height = 400, img_base = ''white'',
           img_drawn = [Rectangle GuidanceBorder (0, 0, 799, 399) 3,
                        Line GuidanceDivider (266, 0, 266, 400) 2,
                        Line GuidanceDivider (533, 0, 533, 400) 2,
                        Rectangle TextArea (200, 133, 600, 266) 2] \<rparr> \<and>
   create_control_image strict_pil 800 400 ''center'' ''geometric'' =
     Inr \<lparr> img_width = 800, img_height = 400, img_base = ''white'',
           img_drawn = [Rectangle GuidanceBorder (0, 0, 799, 399) 3,
                        Line GuidanceDivider (266, 0, 266, 400) 2,
                        Line GuidanceDivider (533, 0, 533, 400) 2,
                        Rectangle TextArea (200, 133, 600, 266) 2] \<rparr>"
proof -
  have h: "''middle'' \<notin> {''left'', ''center'', ''right'', ''top'', ''bottom''}" by simp
  have s: "(0::int) < 800 \<and> (0::int) < 400" by simp
  note t = unknown_text_position_is_center [OF h, of 800 400 strict_pil "''geometric''"]
  from t have b: "text_box 800 400 ''middle'' =
      (800 div 4, 400 div 3, (3 * 800) div 4, (2 * 400) div 3)"
    by blast
  from t have c: "create_control_image strict_pil 800 400 ''middle'' ''geometric'' =
      create_control_image strict_pil 800 400 ''center'' ''geometric''"
    by blast
  from t s have r: "create_control_image strict_pil 800 400 ''middle'' ''geometric'' =
      Inr \<lparr> img_width = 800, img_height = 400, img_base = ''white'',
            img_drawn = layout_shapes 800 400 ''geometric'' @
              [Rectangle TextArea (800 div 4, 400 div 3, (3 * 800) div 4, (2 * 400) div 3)
                 2] \<rparr>"
    by blast
  from r have r': "create_control_image strict_pil 800 400 ''middle'' ''geometric'' =
     Inr \<lparr> img_width = 800, img_height = 400, img_base = ''white'',
           img_drawn = [Rectangle GuidanceBorder (0, 0, 799, 399) 3,
                        Line GuidanceDivider (266, 0, 266, 400) 2,
                        Line GuidanceDivider (533, 0, 533, 400) 2,
                        Rectangle TextArea (200, 133, 600, 266) 2] \<rparr>"
    by (simp add: layout_shapes_def)
  from b have b': "text_box 800 400 ''middle'' = (200, 133, 600, 266)" by simp
  from c r' have c': "create_control_image strict_pil 800 400 ''center'' ''geometric'' =
     Inr \<lparr> img_width = 800, img_height = 400, img_base = ''white'',
           img_drawn = [Rectangle GuidanceBorder (0, 0, 799, 399) 3,
                        Line GuidanceDivider (266, 0, 266, 400) 2,
                        Line GuidanceDivider (533, 0, 533, 400) 2,
                        Rectangle TextArea (200, 133, 600, 266) 2] \<rparr>"
    by simp
  from h b' r' c' show ?thesis by blast
qed

section \<open>Properties of the text renderer\<close>

lemma add_text_frame:
  "take (length h) (fst (add_text_to_banner P h background text position font_size font_family
      color alignment stroke_width stroke_color shadow)) = h \<and>
   length (fst (add_text_to_banner P h background text position font_size font_family
      color alignment stroke_width stroke_color shadow)) = Suc (length h)"
  by (auto simp: add_text_to_banner_def copy_image_def draw_text_def Let_def
      split: sum.splits option.splits prod.splits if_splits)

lemma add_text_ref:
  "snd (add_text_to_banner P h background text position font_size font_family
      color alignment stroke_width stroke_color shadow) = Inr img \<Longrightarrow> img = length h"
  by (auto simp: add_text_to_banner_def copy_image_def draw_text_def Let_def
      split: sum.splits option.splits prod.splits if_splits)

text \<open>
  Claim C8. The call works on a copy: every image that was in the store before the call,
  the background among them, is the same after it, whether the call returns or raises,
  and the image returned is a new one.
\<close>

theorem input_canvas_unchanged:
  assumes "background < length h"
  shows "fst (add_text_to_banner P h background text position font_size font_family
           color alignment stroke_width stroke_color shadow) ! background = h ! background \<and>
         take (length h) (fst (add_text_to_banner P h background text position font_size
           font_family color alignment stroke_width stroke_color shadow)) = h \<and>
         (\<forall>img. snd (add_text_to_banner P h background text position font_size font_family
           color alignment stroke_width stroke_color shadow) = Inr img \<longrightarrow>
            img = length h \<and> img \<noteq> background)"
proof -
  let ?res = "add_text_to_banner P h background text position font_size font_family
           color alignment stroke_width stroke_color shadow"
  have t: "take (length h) (fst ?res) = h" using add_text_frame by blast
  have "fst ?res ! background = take (length h) (fst ?res) ! background"
    using assms by simp
  with t have "fst ?res ! background = h ! background" by simp
  moreover have "img = length h \<and> img \<noteq> background" if "snd ?res = Inr img" for img
    using add_text_ref [OF that] assms by simp
  ultimately show ?thesis using t by blast
qed


lemmas run_text = add_text_to_banner_def copy_image_def draw_text_def resolve_position_def
  auto_position_def get_font_def font_paths_def shadow_offset_def banner800_def

theorem input_canvas_unchanged_witness:
  "0 < length [banner800] \<and>
   fst (add_text_to_banner strict_pil [banner800] 0 ''TEST'' None 48 ''Sans'' ''#FFFFFF''
          ''center'' 2 ''#000000'' True) ! 0 = banner800 \<and>
   snd (add_text_to_banner strict_pil [banner800] 0 ''TEST'' None 48 ''Sans'' ''#FFFFFF''
          ''center'' 2 ''#000000'' True) = Inr 1"
proof -
  have l: "0 < length [banner800]" by simp
  have r: "snd (add_text_to_banner strict_pil [banner800] 0 ''TEST'' None 48 ''Sans''
                  ''#FFFFFF'' ''center'' 2 ''#000000'' True) = Inr 1"
    by (simp add: run_text strict_pil_def)
  from input_canvas_unchanged [OF l, of strict_pil "''TEST''" None 48 "''Sans''" "''#FFFFFF''"
      "''center''" 2 "''#000000''" True] l r
  show ?thesis by simp
qed






text \<open>
  Where the automatic position puts the ink. The code centres a box of the text's width
  and height but draws from the origin of the measured box, so twice the centre of the
  ink is the canvas size plus twice the offset of the measured box, less the rounding.
\<close>

lemma auto_position_centre:
  "centre2 (rendered_bbox (auto_position img (b0, b1, b2, b3)) (b0, b1, b2, b3)) =
     (img_width img + 2 * b0 - (img_width img - (b2 - b0)) mod 2,
      img_height img + 2 * b1 - (img_height img - (b3 - b1)) mod 2)"
proof -
  have half: "2 * (a div 2) = a - a mod 2" for a :: int
    by (simp add: minus_mod_eq_mult_div [symmetric])
  have "(img_width img - (b2 - b0)) div 2 + b0 + ((img_width img - (b2 - b0)) div 2 + b2) =
        2 * ((img_width img - (b2 - b0)) div 2) + b0 + b2"
    by simp
  also have "\<dots> = img_width img + 2 * b0 - (img_width img - (b2 - b0)) mod 2"
    unfolding half by simp
  finally have x: "(img_width img - (b2 - b0)) div 2 + b0 + ((img_width img - (b2 - b0)) div 2 + b2) =
        img_width img + 2 * b0 - (img_width img - (b2 - b0)) mod 2" .
  have "(img_height img - (b3 - b1)) div 2 + b1 + ((img_height img - (b3 - b1)) div 2 + b3) =
        2 * ((img_height img - (b3 - b1)) div 2) + b1 + b3"
    by simp
  also have "\<dots> = img_height img + 2 * b1 - (img_height img - (b3 - b1)) mod 2"
    unfolding half by simp
  finally have y: "(img_height img - (b3 - b1)) div 2 + b1 + ((img_height img - (b3 - b1)) div 2 + b3) =
        img_height img + 2 * b1 - (img_height img - (b3 - b1)) mod 2" .
  show ?thesis
    unfolding auto_position_def rendered_bbox_def centre2_def Let_def prod.case fst_conv snd_conv
    using x y by simp
qed

lemma auto_position_centred_at_origin:
  assumes "centre2 (rendered_bbox (auto_position img (0, 0, b2, b3)) (0, 0, b2, b3)) = (cx, cy)"
  shows "img_width img - 1 \<le> cx \<and> cx \<le> img_width img \<and>
         img_height img - 1 \<le> cy \<and> cy \<le> img_height img"
proof -
  have m: "0 \<le> a mod 2 \<and> a mod 2 \<le> 1" for a :: int
    by presburger
  from assms have "cx = img_width img - (img_width img - b2) mod 2"
    and "cy = img_height img - (img_height img - b3) mod 2"
    unfolding auto_position_centre by simp_all
  with m [of "img_width img - b2"] m [of "img_height img - b3"] show ?thesis
    by simp
qed

text \<open>
  Claim C4 on the code: \<^verbatim>\<open>TEST\<close> at 48 pixels on the 800 by 400 canvas, no position
  given, with a face whose measured box starts 10 pixels below the origin. The text is
  drawn at (340, 182), the ink covers y from 192 to 227, and twice its centre is
  (799, 419): 9.5 pixels below the centre of the canvas.
\<close>

theorem auto_centre_misses_bbox_offset:
  "add_text_to_banner truetype_pil [banner800] 0 ''TEST'' None 48 ''Sans'' ''#FFFFFF''
     ''center'' 2 ''#000000'' True =
   ([banner800,
     banner800 \<lparr> img_drawn :=
       [Text (343, 185) ''TEST''
          (TrueType ''/usr/share/fonts/truetype/dejavu/DejaVuSans.ttf'' 48)
          ''#00000080'' 2 ''#00000080'',
        Text (340, 182) ''TEST''
          (TrueType ''/usr/share/fonts/truetype/dejavu/DejaVuSans.ttf'' 48)
          ''#FFFFFF'' 2 ''#000000''] \<rparr>],
    Inr 1) \<and>
   textbbox truetype_pil (TrueType ''/usr/share/fonts/truetype/dejavu/DejaVuSans.ttf'' 48) ''TEST''
     = Inr (0, 10, 119, 45) \<and>
   rendered_bbox (340, 182) (0, 10, 119, 45) = (340, 192, 459, 227) \<and>
   centre2 (340, 192, 459, 227) = (799, 419)"
  by code_simp

section \<open>Properties of the metadata export and import\<close>

lemma map_of_dict_set: "map_of (dict_set d k v) = (map_of d)(k \<mapsto> v)"
  by (induction d k v rule: dict_set.induct) (auto simp: fun_eq_iff)


lemma map_of_foldl_dict_set:
  "map_of (foldl (\<lambda>d (k, v). dict_set d k v) d pairs) = map_of d ++ map_of (rev pairs)"
proof (induction pairs arbitrary: d)
  case Nil
  show ?case by simp
next
  case (Cons p pairs)
  obtain k v where p: "p = (k, v)" by (cases p)
  have "map_of (foldl (\<lambda>d (k, v). dict_set d k v) d (p # pairs)) =
        map_of (dict_set d k v) ++ map_of (rev pairs)"
    unfolding p using Cons.IH [of "dict_set d k v"] by simp
  also have "\<dots> = (map_of d ++ [k \<mapsto> v]) ++ map_of (rev pairs)"
    by (simp add: map_of_dict_set)
  also have "\<dots> = map_of d ++ map_of (rev (p # pairs))"
    unfolding p by (simp add: map_add_assoc [symmetric])
  finally show ?case .
qed

lemma map_of_dict_of_pairs: "map_of (dict_of_pairs pairs) = map_of (rev pairs)"
  unfolding dict_of_pairs_def by (simp add: map_of_foldl_dict_set)







lemma map_of_members:
  "map_of (map (map_prod KStr f) members) (KStr name) = map_option f (map_of members name)"
  by (induction members) auto










text \<open>
  The other two ways a layer changes on the trip: the keys \<^verbatim>\<open>1\<close> and \<^verbatim>\<open>None\<close> come
  back as the strings \<^verbatim>\<open>'1'\<close> and \<^verbatim>\<open>'null'\<close>, the first taking the place of the string
  key \<^verbatim>\<open>'1'\<close> that was there, and a not-a-number comes back as one, equal to nothing.
\<close>

lemma keys_and_nan_come_back_changed:
  "export_then_load (\<lambda>p. True) (\<lambda>p. None) ''b'' banner800
     [PDict [(KInt 1, PStr ''a''), (KStr ''1'', PStr ''b''), (KNone, PFloat NaN)]] =
   Inr (banner800, PList [PDict [(KStr ''1'', PStr ''b''), (KStr ''null'', PFloat NaN)]])"
  by code_simp


lemma subscript_from_json:
  "subscript (PDict (dict_of_pairs (map (map_prod KStr from_json) members))) name =
     (case last_member members name of
        None \<Rightarrow> Inl (KeyError name)
      | Some j \<Rightarrow> Inr (from_json j))"
proof -
  have "map_of (dict_of_pairs (map (map_prod KStr from_json) members)) (KStr name) =
        map_of (map (map_prod KStr from_json) (rev members)) (KStr name)"
    by (simp add: map_of_dict_of_pairs rev_map)
  also have "\<dots> = map_option from_json (last_member members name)"
    unfolding last_member_def by (rule map_of_members)
  finally show ?thesis
    by (simp add: subscript_def split: option.split)
qed

text \<open>
  Claim C9, as the code has it. On a metadata document that is a JSON object, of which
  \<^verbatim>\<open>json.load\<close> keeps the last member of each name, the import fails with
  \<^verbatim>\<open>KeyError\<close> naming \<^verbatim>\<open>background\<close> when that member is missing, with
  \<^verbatim>\<open>FileNotFoundError\<close> naming the path when the background file is missing, and with
  \<^verbatim>\<open>KeyError\<close> naming \<^verbatim>\<open>text_layers\<close> when that member is missing; it reads neither
  \<^verbatim>\<open>width\<close> nor \<^verbatim>\<open>height\<close>, and returns the image and the layers whenever the
  other two are there.
\<close>

theorem malformed_metadata_errors:
  assumes "files metadata_path = Some (JsonFile (JObj members))"
  shows "(last_member members ''background'' = None \<longrightarrow>
            load_from_metadata files metadata_path = Inl (KeyError ''background'')) \<and>
         (last_member members ''background'' = Some (JStr p) \<and> files p = None \<longrightarrow>
            load_from_metadata files metadata_path = Inl (FileNotFoundError p)) \<and>
         (last_member members ''background'' = Some (JStr p) \<and> files p = Some (PngFile img) \<and>
          last_member members ''text_layers'' = None \<longrightarrow>
            load_from_metadata files metadata_path = Inl (KeyError ''text_layers'')) \<and>
         (last_member members ''background'' = Some (JStr p) \<and> files p = Some (PngFile img) \<and>
          last_member members ''text_layers'' = Some layers \<longrightarrow>
            load_from_metadata files metadata_path = Inr (img, from_json layers))"
  using assms
  by (simp add: load_from_metadata_def subscript_from_json image_open_def Let_def)

theorem malformed_metadata_errors_witness:
  "load_from_metadata files_broken ''no_background.json'' = Inl (KeyError ''background'') \<and>
   load_from_metadata files_broken ''no_file.json'' = Inl (FileNotFoundError ''gone.png'') \<and>
   load_from_metadata files_broken ''no_layers.json'' = Inl (KeyError ''text_layers'') \<and>
   load_from_metadata files_broken ''repeated.json'' = Inr (banner800, PList []) \<and>
   load_from_metadata files_without_size ''banner_metadata.json'' = Inr (banner800, PList [])"
proof -
  have a: "files_broken ''no_background.json'' =
      Some (JsonFile (JObj [(''width'', JInt 800), (''height'', JInt 400),
                            (''text_layers'', JArr [])]))"
    by (simp add: files_broken_def)
  have b: "files_broken ''no_file.json'' =
      Some (JsonFile (JObj [(''width'', JInt 800), (''height'', JInt 400),
                            (''background'', JStr ''gone.png''),
                            (''text_layers'', JArr [])]))"
    and b': "files_broken ''gone.png'' = None"
    by (simp_all add: files_broken_def)
  have c: "files_broken ''no_layers.json'' =
      Some (JsonFile (JObj [(''width'', JInt 800), (''height'', JInt 400),
                            (''background'', JStr ''banner_background.png'')]))"
    and c': "files_broken ''banner_background.png'' = Some (PngFile banner800)"
    by (simp_all add: files_broken_def)
  have r: "files_broken ''repeated.json'' =
      Some (JsonFile (JObj [(''background'', JStr ''gone.png''),
                            (''background'', JStr ''banner_background.png''),
                            (''text_layers'', JArr [])]))"
    by (simp add: files_broken_def)
  have d: "files_without_size ''banner_metadata.json'' =
      Some (JsonFile (JObj [(''background'', JStr ''banner_background.png''),
                            (''text_layers'', JArr [])]))"
    and d': "files_without_size ''banner_background.png'' = Some (PngFile banner800)"
    by (simp_all add: files_without_size_def)
  from malformed_metadata_errors [where files = files_broken
      and metadata_path = "''no_background.json''" and p = "''gone.png''" and img = banner800
      and layers = JNull, OF a]
  have 1: "load_from_metadata files_broken ''no_background.json'' = Inl (KeyError ''background'')"
    by (simp add: last_member_def)
  from malformed_metadata_errors [where files = files_broken
      and metadata_path = "''no_file.json''" and p = "''gone.png''" and img = banner800
      and layers = JNull, OF b] b'
  have 2: "load_from_metadata files_broken ''no_file.json'' = Inl (FileNotFoundError ''gone.png'')"
    by (simp add: last_member_def)
  from malformed_metadata_errors [where files = files_broken
      and metadata_path = "''no_layers.json''" and p = "''banner_background.png''"
      and img = banner800 and layers = JNull, OF c] c'
  have 3: "load_from_metadata files_broken ''no_layers.json'' = Inl (KeyError ''text_layers'')"
    by (simp add: last_member_def)
  from malformed_metadata_errors [where files = files_broken
      and metadata_path = "''repeated.json''" and p = "''banner_background.png''"
      and img = banner800 and layers = "JArr []", OF r] c'
  have 4: "load_from_metadata files_broken ''repeated.json'' = Inr (banner800, PList [])"
    by (simp add: last_member_def)
  from malformed_metadata_errors [where files = files_without_size
      and metadata_path = "''banner_metadata.json''" and p = "''banner_background.png''"
      and img = banner800 and layers = "JArr []", OF d] d'
  have 5: "load_from_metadata files_without_size ''banner_metadata.json'' =
             Inr (banner800, PList [])"
    by (simp add: last_member_def)
  from 1 2 3 4 5 show ?thesis by simp
qed

text \<open>
  Claim C9 as stated fails: a document with neither \<^verbatim>\<open>width\<close> nor \<^verbatim>\<open>height\<close> is
  imported without an error.
\<close>

theorem missing_size_counterexample:
  "last_member [(''background'', JStr ''banner_background.png''), (''text_layers'', JArr [])]
     ''width'' = None \<and>
   last_member [(''background'', JStr ''banner_background.png''), (''text_layers'', JArr [])]
     ''height'' = None \<and>
   files_without_size ''banner_metadata.json'' =
     Some (JsonFile (JObj [(''background'', JStr ''banner_background.png''),
                           (''text_layers'', JArr [])])) \<and>
   load_from_metadata files_without_size ''banner_metadata.json'' = Inr (banner800, PList [])"
  by (simp add: files_without_size_def load_from_metadata_def subscript_def image_open_def
        last_member_def dict_of_pairs_def)

section \<open>Properties of the parsing of the advisor's answer\<close>

lemma py_find_nonneg: "- 1 \<le> py_find s c"
  by (induction s) (auto simp: Let_def)

lemma py_find_none: "py_find s c = - 1 \<longleftrightarrow> c \<notin> set s"
proof (induction s)
  case Nil
  show ?case by simp
next
  case (Cons x xs)
  from py_find_nonneg [of xs c] have "py_find xs c + 1 \<noteq> - 1" by simp
  with Cons show ?case by (simp add: Let_def)
qed

lemma py_find_takeWhile:
  "c \<in> set s \<Longrightarrow> py_find s c = int (length (takeWhile (\<lambda>x. x \<noteq> c) s))"
  by (induction s) (auto simp: Let_def py_find_none)

lemma py_rfind_nonneg: "- 1 \<le> py_rfind s c"
  by (induction s) (auto simp: Let_def)

lemma py_rfind_none: "py_rfind s c = - 1 \<longleftrightarrow> c \<notin> set s"
proof (induction s)
  case Nil
  show ?case by simp
next
  case (Cons x xs)
  from py_rfind_nonneg [of xs c] have "py_rfind xs c + 1 \<noteq> - 1" by simp
  with Cons show ?case by (auto simp: Let_def)
qed

lemma py_rfind_snoc:
  "py_rfind (s @ [x]) c = (if x = c then int (length s) else py_rfind s c)"
  by (induction s) (auto simp: Let_def)

lemma py_rfind_rev:
  "c \<in> set s \<Longrightarrow>
   py_rfind s c + 1 = int (length s) - int (length (takeWhile (\<lambda>x. x \<noteq> c) (rev s)))"
proof (induction s rule: rev_induct)
  case Nil
  then show ?case by simp
next
  case (snoc x xs)
  then show ?case by (auto simp: py_rfind_snoc)
qed


lemma rev_dropWhile_rev:
  "rev (dropWhile P (rev s)) = take (length s - length (takeWhile P (rev s))) s"
proof -
  have "rev s = takeWhile P (rev s) @ dropWhile P (rev s)" by simp
  then have "s = rev (dropWhile P (rev s)) @ rev (takeWhile P (rev s))"
    by (metis rev_append rev_rev_ident)
  then have "take (length (rev (dropWhile P (rev s)))) s = rev (dropWhile P (rev s))"
    by (metis append_eq_conv_conj)
  moreover have "length (rev (dropWhile P (rev s))) = length s - length (takeWhile P (rev s))"
    by (metis length_rev length_append add_diff_cancel_left' takeWhile_dropWhile_id)
  ultimately show ?thesis by simp
qed

lemma py_slice_nat:
  assumes "a \<le> length s" "b \<le> length s"
  shows "py_slice s (int a) (int b) = take (b - a) (drop a s)"
  using assms by (simp add: py_slice_def slice_index_def Let_def min_def nat_diff_distrib')

lemma slice_is_span:
  assumes c1: "c1 \<in> set r" and c2: "c2 \<in> set r"
  shows "py_slice r (py_find r c1) (py_rfind r c2 + 1) =
         rev (dropWhile (\<lambda>x. x \<noteq> c2) (rev (dropWhile (\<lambda>x. x \<noteq> c1) r)))"
proof -
  define a where "a = length (takeWhile (\<lambda>x. x \<noteq> c1) r)"
  define k where "k = length (takeWhile (\<lambda>x. x \<noteq> c2) (rev r))"
  define s where "s = drop a r"
  have a_le: "a \<le> length r" unfolding a_def by (rule length_takeWhile_le)
  have k_le: "k \<le> length r" unfolding k_def using length_takeWhile_le [of _ "rev r"] by simp
  have start: "py_find r c1 = int a" unfolding a_def by (rule py_find_takeWhile [OF c1])
  have stop: "py_rfind r c2 + 1 = int (length r - k)"
    using py_rfind_rev [OF c2] k_le unfolding k_def by simp
  have s_eq: "dropWhile (\<lambda>x. x \<noteq> c1) r = s"
    unfolding s_def a_def by (rule dropWhile_eq_drop)
  have code: "py_slice r (py_find r c1) (py_rfind r c2 + 1) = take (length r - k - a) s"
    unfolding start stop s_def using a_le by (simp add: py_slice_nat)
  have revr: "rev r = rev s @ rev (take a r)"
    unfolding s_def by (metis append_take_drop_id rev_append)
  show ?thesis
  proof (cases "c2 \<in> set s")
    case True
    then have "takeWhile (\<lambda>x. x \<noteq> c2) (rev r) = takeWhile (\<lambda>x. x \<noteq> c2) (rev s)"
      unfolding revr by (intro takeWhile_append1 [of c2]) simp_all
    then have "length (takeWhile (\<lambda>x. x \<noteq> c2) (rev s)) = k" unfolding k_def by simp
    then have "rev (dropWhile (\<lambda>x. x \<noteq> c2) (rev s)) = take (length s - k) s"
      by (simp add: rev_dropWhile_rev)
    moreover have "length s - k = length r - k - a" unfolding s_def by simp
    ultimately show ?thesis unfolding code s_eq by simp
  next
    case False
    then have "takeWhile (\<lambda>x. x \<noteq> c2) (rev r) =
               rev s @ takeWhile (\<lambda>x. x \<noteq> c2) (rev (take a r))"
      unfolding revr by (intro takeWhile_append2) auto
    then have "length s \<le> k" unfolding k_def by simp
    then have "length r - k - a = 0" unfolding s_def by simp
    moreover from False have "dropWhile (\<lambda>x. x \<noteq> c2) (rev s) = []" by auto
    ultimately show ?thesis unfolding code s_eq by simp
  qed
qed


lemma span_needs_braces:
  assumes "rev (dropWhile (\<lambda>c. c \<noteq> c2) (rev (dropWhile (\<lambda>c. c \<noteq> c1) r))) \<noteq> []"
  shows "c1 \<in> set r \<and> c2 \<in> set r"
proof -
  from assms have m: "c2 \<in> set (dropWhile (\<lambda>c. c \<noteq> c1) r)"
    by simp
  then have 2: "c2 \<in> set r" by (rule set_dropWhileD)
  have "c1 \<in> set r"
  proof (rule ccontr)
    assume "c1 \<notin> set r"
    then have "dropWhile (\<lambda>c. c \<noteq> c1) r = []" by auto
    with m show False by simp
  qed
  with 2 show ?thesis by simp
qed

lemma parse_with_span:
  assumes "brace_span response = Some s"
  shows "parse_design_response loads response =
           (case loads s of Some parsed \<Rightarrow> parsed | None \<Rightarrow> default_design response)"
proof -
  let ?open = "CHR ''{''" and ?close = "CHR ''}''"
  define span where
    "span = rev (dropWhile (\<lambda>c. c \<noteq> ?close) (rev (dropWhile (\<lambda>c. c \<noteq> ?open) response)))"
  have b: "brace_span response = (if span = [] then None else Some span)"
    unfolding span_def by (simp add: brace_span_def Let_def)
  with assms have ne: "span \<noteq> []" and s: "s = span" by (auto split: if_splits)
  from ne have braces: "?open \<in> set response \<and> ?close \<in> set response"
    unfolding span_def by (rule span_needs_braces)
  then have sl: "py_slice response (py_find response ?open) (py_rfind response ?close + 1) = span"
    unfolding span_def using slice_is_span by blast
  from braces have "py_find response ?open \<noteq> - 1" "py_rfind response ?close + 1 \<noteq> 0"
    using py_find_none [of response ?open] py_rfind_none [of response ?close] by auto
  then show ?thesis
    unfolding parse_design_response_def Let_def sl s by simp
qed

lemma parse_without_span:
  assumes "brace_span response = None" and "loads [] = None"
  shows "parse_design_response loads response = default_design response"
proof -
  let ?open = "CHR ''{''" and ?close = "CHR ''}''"
  define span where
    "span = rev (dropWhile (\<lambda>c. c \<noteq> ?close) (rev (dropWhile (\<lambda>c. c \<noteq> ?open) response)))"
  have b: "brace_span response = (if span = [] then None else Some span)"
    unfolding span_def by (simp add: brace_span_def Let_def)
  with assms(1) have e: "span = []" by (auto split: if_splits)
  show ?thesis
  proof (cases "?open \<in> set response \<and> ?close \<in> set response")
    case True
    then have "py_slice response (py_find response ?open) (py_rfind response ?close + 1) = span"
      unfolding span_def using slice_is_span by blast
    with e have sl: "py_slice response (py_find response ?open) (py_rfind response ?close + 1) = []"
      by simp
    show ?thesis
      unfolding parse_design_response_def Let_def sl using assms(2) by simp
  next
    case False
    then have "py_find response ?open = - 1 \<or> py_rfind response ?close + 1 = 0"
      using py_find_none [of response ?open] py_rfind_none [of response ?close] by auto
    then show ?thesis
      unfolding parse_design_response_def Let_def by auto
  qed
qed

text \<open>
  Claim C7. \<^verbatim>\<open>parse_design_response\<close> is total: every exception of the search, the
  slice or \<^verbatim>\<open>json.loads\<close> ends in the default. When the substring from the first
  \<^verbatim>\<open>{\<close> to the last \<^verbatim>\<open>}\<close> parses, the parsed value is the result; when there is no
  such substring or it does not parse, the result is the default structure, with the
  response under \<^verbatim>\<open>raw_response\<close>, the five default colours and the default image
  prompt. The one fact used of \<^verbatim>\<open>json.loads\<close> is that it raises on the empty string,
  which is what the code hands it when the last \<^verbatim>\<open>}\<close> comes before the first \<^verbatim>\<open>{\<close>.
\<close>

theorem parse_follows_contract:
  assumes "loads [] = None"
  shows "parse_design_response loads response =
           (case brace_span response of
              None \<Rightarrow> default_design response
            | Some s \<Rightarrow> (case loads s of Some parsed \<Rightarrow> parsed | None \<Rightarrow> default_design response)) \<and>
         dict_get (default_design response) ''raw_response'' = Some (PStr response) \<and>
         dict_get (default_design response) ''colors'' =
           Some (PList [PStr ''#3498db'', PStr ''#2ecc71'', PStr ''#f39c12'', PStr ''#e74c3c'',
                        PStr ''#ffffff'']) \<and>
         dict_get (default_design response) ''image_prompt'' =
           Some (PStr ''professional modern abstract background'')"
proof -
  have "parse_design_response loads response =
           (case brace_span response of
              None \<Rightarrow> default_design response
            | Some s \<Rightarrow> (case loads s of Some parsed \<Rightarrow> parsed | None \<Rightarrow> default_design response))"
  proof (cases "brace_span response")
    case None
    with parse_without_span [of response loads, OF None assms] show ?thesis by simp
  next
    case (Some s)
    with parse_with_span [OF Some, of loads] show ?thesis by simp
  qed
  then show ?thesis by (simp add: default_design_def dict_get_def)
qed

theorem parse_follows_contract_witness:
  "(\<lambda>s. if s = ''{}'' then Some (PDict []) else None) [] = None \<and>
   brace_span ''Sure! {} Enjoy.'' = Some ''{}'' \<and>
   parse_design_response (\<lambda>s. if s = ''{}'' then Some (PDict []) else None) ''Sure! {} Enjoy.'' =
     PDict [] \<and>
   brace_span ''} no json {'' = None \<and>
   parse_design_response (\<lambda>s. if s = ''{}'' then Some (PDict []) else None) ''} no json {'' =
     default_design ''} no json {''"
proof -
  let ?loads = "\<lambda>s. if s = ''{}'' then Some (PDict []) else (None :: pyval option)"
  have l: "?loads [] = None" by simp
  have b1: "brace_span ''Sure! {} Enjoy.'' = Some ''{}''"
    by (simp add: brace_span_def)
  have b2: "brace_span ''} no json {'' = None"
    by (simp add: brace_span_def)
  from parse_follows_contract [of ?loads, OF l, of "''Sure! {} Enjoy.''"] b1
  have 1: "parse_design_response ?loads ''Sure! {} Enjoy.'' = PDict []" by simp
  from parse_follows_contract [of ?loads, OF l, of "''} no json {''"] b2
  have 2: "parse_design_response ?loads ''} no json {'' = default_design ''} no json {''"
    by simp
  from l b1 b2 1 2 show ?thesis by simp
qed

text \<open>
  Claim C10. What \<^verbatim>\<open>json.loads\<close> returns for the substring is returned as it is, with
  no key checked or filled in: for a response whose substring is \<^verbatim>\<open>{}\<close> the result is
  the empty dict, with none of \<^verbatim>\<open>concept\<close>, \<^verbatim>\<open>colors\<close>, \<^verbatim>\<open>typography\<close>,
  \<^verbatim>\<open>layout\<close>, \<^verbatim>\<open>image_prompt\<close> and no \<^verbatim>\<open>raw_response\<close>.
\<close>

theorem parsed_object_returned_verbatim:
  "(brace_span response = Some s \<and> loads s = Some parsed \<longrightarrow>
      parse_design_response loads response = parsed) \<and>
   (loads ''{}'' = Some (PDict []) \<longrightarrow>
      parse_design_response loads ''Here is the design: {} Enjoy!'' = PDict [] \<and>
      list_all (\<lambda>k. dict_get (parse_design_response loads ''Here is the design: {} Enjoy!'') k
                       = None)
        [''concept'', ''colors'', ''typography'', ''layout'', ''image_prompt'',
         ''raw_response''])"
proof (intro conjI impI)
  assume "brace_span response = Some s \<and> loads s = Some parsed"
  then have b: "brace_span response = Some s" and l: "loads s = Some parsed" by simp_all
  from parse_with_span [OF b, of loads] l
  show "parse_design_response loads response = parsed" by simp
next
  assume l: "loads ''{}'' = Some (PDict [])"
  have b: "brace_span ''Here is the design: {} Enjoy!'' = Some ''{}''"
    by (simp add: brace_span_def)
  from parse_with_span [OF b, of loads] l
  show p: "parse_design_response loads ''Here is the design: {} Enjoy!'' = PDict []" by simp
  show "list_all (\<lambda>k. dict_get (parse_design_response loads ''Here is the design: {} Enjoy!'') k
                       = None)
        [''concept'', ''colors'', ''typography'', ''layout'', ''image_prompt'',
         ''raw_response'']"
    unfolding p by (simp add: dict_get_def)
qed

theorem parsed_object_returned_verbatim_witness:
  "brace_span ''Here is the design: {} Enjoy!'' = Some ''{}'' \<and>
   (\<lambda>s. if s = ''{}'' then Some (PDict []) else None) ''{}'' = Some (PDict []) \<and>
   parse_design_response (\<lambda>s. if s = ''{}'' then Some (PDict []) else None)
     ''Here is the design: {} Enjoy!'' = PDict [] \<and>
   dict_get (PDict []) ''image_prompt'' = None \<and>
   dict_get (PDict []) ''raw_response'' = None"
proof -
  let ?loads = "\<lambda>s. if s = ''{}'' then Some (PDict []) else (None :: pyval option)"
  have l: "?loads ''{}'' = Some (PDict [])" by simp
  have b: "brace_span ''Here is the design: {} Enjoy!'' = Some ''{}''"
    by (simp add: brace_span_def)
  from parsed_object_returned_verbatim [of "''Here is the design: {} Enjoy!''" "''{}''" ?loads
      "PDict []"] l b
  show ?thesis by (simp add: dict_get_def)
qed

end
